theory Spec2Isabelle
  imports Main
begin

section \<open>Values, errors and configuration\<close>

text \<open>
  The payload that \<open>CacheManager\<close> stores is any JavaScript value (\<open>@param {any} data\<close>);
  the decoded body of an API response is a JSON value. \<open>JNum\<close> carries the integral
  numbers, \<open>JNaN\<close> the one number besides zero that is falsy.
\<close>

datatype jsval =
    JUndefined
  | JNull
  | JBool bool
  | JNum int
  | JNaN
  | JStr string
  | JArr "jsval list"
  | JObj "(string \<times> jsval) list"

text \<open>JavaScript's \<open>ToBoolean\<close>, as used by \<open>if (cachedData)\<close>.\<close>

fun truthy :: "jsval \<Rightarrow> bool" where
  "truthy JUndefined = False"
| "truthy JNull = False"
| "truthy (JBool b) = b"
| "truthy (JNum n) = (n \<noteq> 0)"
| "truthy JNaN = False"
| "truthy (JStr s) = (s \<noteq> [])"
| "truthy (JArr xs) = True"
| "truthy (JObj fs) = True"

text \<open>A thrown value: the constructor that made it and its \<open>message\<close>.\<close>

datatype js_error =
    Error string
  | TypeError string
  | SyntaxError string

fun message :: "js_error \<Rightarrow> string" where
  "message (Error m) = m"
| "message (TypeError m) = m"
| "message (SyntaxError m) = m"

text \<open>The fields of \<open>CONFIG\<close> in \<open>app.js\<close>.\<close>

definition API_URL :: string where
  "API_URL = ''https://api.dictionaryapi.dev/api/v2/entries/en/''"

definition CACHE_DURATION :: int where
  "CACHE_DURATION = 3600000"

definition MAX_CACHE_SIZE :: nat where
  "MAX_CACHE_SIZE = 50"

section \<open>The JavaScript \<open>Map\<close>\<close>

text \<open>
  A \<open>Map\<close> iterates its keys in insertion order, so it is an association list, oldest key
  first, with no key twice. \<open>Map.prototype.set\<close> on a key that is present replaces the
  value where the key stands; on a new key it appends.
\<close>

type_synonym ('k, 'v) js_map = "('k \<times> 'v) list"

definition Map_keys :: "('k, 'v) js_map \<Rightarrow> 'k list" where
  "Map_keys m = map fst m"

definition Map_has :: "('k, 'v) js_map \<Rightarrow> 'k \<Rightarrow> bool" where
  "Map_has m k = (k \<in> set (Map_keys m))"

definition Map_get :: "('k, 'v) js_map \<Rightarrow> 'k \<Rightarrow> 'v option" where
  "Map_get m k = map_of m k"

primrec Map_set :: "('k, 'v) js_map \<Rightarrow> 'k \<Rightarrow> 'v \<Rightarrow> ('k, 'v) js_map" where
  "Map_set [] k v = [(k, v)]"
| "Map_set (e # m) k v = (if fst e = k then (k, v) # m else e # Map_set m k v)"

definition Map_delete :: "('k, 'v) js_map \<Rightarrow> 'k \<Rightarrow> ('k, 'v) js_map" where
  "Map_delete m k = filter (\<lambda>e. fst e \<noteq> k) m"

definition Map_size :: "('k, 'v) js_map \<Rightarrow> nat" where
  "Map_size m = length m"

definition wf_map :: "('k, 'v) js_map \<Rightarrow> bool" where
  "wf_map m = distinct (Map_keys m)"

section \<open>\<open>CacheManager\<close>\<close>

record item =
  data :: jsval
  timestamp :: int

type_synonym 'k cache = "('k, item) js_map"

text \<open>
  \<open>CacheManager.get(key)\<close>; \<open>now\<close> is what \<open>Date.now()\<close> returns. The result is the
  returned value (\<open>null\<close> for a miss) and the cache afterwards.
\<close>

definition CacheManager_get :: "'k cache \<Rightarrow> 'k \<Rightarrow> int \<Rightarrow> jsval \<times> 'k cache" where
  "CacheManager_get c key now =
     (case Map_get c key of
        None \<Rightarrow> (JNull, c)
      | Some it \<Rightarrow>
          let isExpired = (now - timestamp it > CACHE_DURATION) in
          if isExpired then (JNull, Map_delete c key)
          else (data it, c))"

text \<open>
  \<open>CacheManager.set(key, data)\<close>. On an empty map \<open>keys().next().value\<close> is
  \<open>undefined\<close>, which is no key of the map, and the delete does nothing.
\<close>

definition CacheManager_set :: "'k cache \<Rightarrow> 'k \<Rightarrow> jsval \<Rightarrow> int \<Rightarrow> 'k cache" where
  "CacheManager_set c key d now =
     (let c1 = (if Map_size c \<ge> MAX_CACHE_SIZE
                then (case Map_keys c of [] \<Rightarrow> c | firstKey # _ \<Rightarrow> Map_delete c firstKey)
                else c)
      in Map_set c1 key \<lparr>data = d, timestamp = now\<rparr>)"

definition CacheManager_clear :: "'k cache \<Rightarrow> 'k cache" where
  "CacheManager_clear c = []"

text \<open>A call on the cache, with the clock reading at the call where the call reads it.\<close>

datatype 'k cache_op = Get 'k int | Set 'k jsval int | Clear

fun apply_op :: "'k cache \<Rightarrow> 'k cache_op \<Rightarrow> 'k cache" where
  "apply_op c (Get k now) = snd (CacheManager_get c k now)"
| "apply_op c (Set k d now) = CacheManager_set c k d now"
| "apply_op c Clear = CacheManager_clear c"

definition run_ops :: "'k cache_op list \<Rightarrow> 'k cache \<Rightarrow> 'k cache" where
  "run_ops ops c = foldl apply_op c ops"

section \<open>\<open>APIService.fetchWord\<close>\<close>

text \<open>
  A \<open>Response\<close>. Its \<open>body\<close> is what \<open>response.json()\<close> settles with: the decoded value,
  or the error it rejects with when the text is no JSON.
\<close>

record response =
  status :: nat
  statusText :: string
  headers :: "(string \<times> string) list"
  body :: "js_error + jsval"

definition ok :: "response \<Rightarrow> bool" where
  "ok r = (200 \<le> status r \<and> status r \<le> 299)"

datatype fetch_result = Resolves response | Rejects js_error

text \<open>
  What the page does not own: \<open>encodeURIComponent\<close> and \<open>fetch\<close>, here the answer of
  the network to a URL at the time of the call. \<open>encodeURIComponent\<close> throws on a lone
  surrogate only; a string here is a byte string, the UTF-8 form of the text, and no such
  string has one, so the function is total.
\<close>

record browser =
  encodeURIComponent :: "string \<Rightarrow> string"
  fetch :: "string \<Rightarrow> fetch_result"

text \<open>The page: the cache of \<open>CacheManager\<close> and the URLs \<open>fetch\<close> was called with, in order.\<close>

record page =
  cache :: "string cache"
  requests :: "string list"

text \<open>\<open>String.prototype.includes\<close>.\<close>

fun String_includes :: "string \<Rightarrow> string \<Rightarrow> bool" where
  "String_includes [] sub = (sub = [])"
| "String_includes (c # cs) sub =
     (take (length sub) (c # cs) = sub \<or> String_includes cs sub)"

text \<open>The \<open>catch\<close> block of \<open>fetchWord\<close>: what it throws for the error it caught.\<close>

definition connection_error :: js_error where
  "connection_error =
     Error ''Unable to connect to the dictionary service. Please check your internet connection.''"

definition fetchWord_catch :: "js_error \<Rightarrow> js_error" where
  "fetchWord_catch error =
     (if String_includes (message error) ''Failed to fetch''
      then connection_error
      else error)"

definition not_found_error :: js_error where
  "not_found_error = Error ''Word not found. Please check your spelling and try again.''"

definition network_error :: js_error where
  "network_error = Error ''Network error. Please check your connection and try again.''"

text \<open>
  \<open>fetchWord(word)\<close>. \<open>t_get\<close> is the clock when \<open>CacheManager.get\<close> runs, \<open>t_set\<close> the
  clock when \<open>CacheManager.set\<close> runs, after the two awaits. \<open>Inl\<close> is the error thrown.
\<close>

definition fetchWord ::
  "browser \<Rightarrow> int \<Rightarrow> int \<Rightarrow> string \<Rightarrow> page \<Rightarrow> (js_error + jsval) \<times> page" where
  "fetchWord b t_get t_set word p =
     (case CacheManager_get (cache p) word t_get of (cachedData, c1) \<Rightarrow>
        if truthy cachedData then (Inr cachedData, p\<lparr>cache := c1\<rparr>)
        else
          let url = API_URL @ encodeURIComponent b word;
              p1 = p\<lparr>cache := c1, requests := requests p @ [url]\<rparr>
          in (case fetch b url of
                Rejects error \<Rightarrow> (Inl (fetchWord_catch error), p1)
              | Resolves response \<Rightarrow>
                  if \<not> ok response then
                    (if status response = 404
                     then (Inl (fetchWord_catch not_found_error), p1)
                     else (Inl (fetchWord_catch network_error), p1))
                  else
                    (case body response of
                       Inl error \<Rightarrow> (Inl (fetchWord_catch error), p1)
                     | Inr d \<Rightarrow>
                         (Inr d, p1\<lparr>cache := CacheManager_set c1 word d t_set\<rparr>))))"

section \<open>The service worker\<close>

definition CACHE_NAME :: string where
  "CACHE_NAME = ''dictionary-app-v1''"

definition RUNTIME_CACHE :: string where
  "RUNTIME_CACHE = ''dictionary-runtime-v1''"

definition STATIC_ASSETS :: "string list" where
  "STATIC_ASSETS =
     [''./'', ''./index.html'', ''./style.css'', ''./app.js'',
      ''https://fonts.googleapis.com/css2?family=Inter:wght@300;400;500;600;700;800&family=Outfit:wght@300;400;500;600;700;800&display=swap'']"

text \<open>
  The Cache API of the browser, as a store that works: \<open>open\<close>, \<open>match\<close> and \<open>put\<close>
  complete, and what can fail is the network. A request is keyed by its URL (all requests
  are GETs). A \<open>Cache\<close> holds request/response pairs; \<open>CacheStorage\<close> holds the named
  caches in the order they were created, and \<open>caches.match\<close> asks each cache in that order.
\<close>

type_synonym request = string

type_synonym sw_cache = "(request, response) js_map"

type_synonym cache_storage = "(string, sw_cache) js_map"

definition Cache_match :: "sw_cache \<Rightarrow> request \<Rightarrow> response option" where
  "Cache_match c req = Map_get c req"

definition Cache_put :: "sw_cache \<Rightarrow> request \<Rightarrow> response \<Rightarrow> sw_cache" where
  "Cache_put c req r = Map_delete c req @ [(req, r)]"

fun caches_match :: "cache_storage \<Rightarrow> request \<Rightarrow> response option" where
  "caches_match [] req = None"
| "caches_match ((name, c) # st) req =
     (case Cache_match c req of Some r \<Rightarrow> Some r | None \<Rightarrow> caches_match st req)"

definition caches_open :: "cache_storage \<Rightarrow> string \<Rightarrow> cache_storage" where
  "caches_open st name = (if Map_has st name then st else st @ [(name, [])])"

text \<open>
  \<open>cache.put\<close> and \<open>cache.addAll\<close> reject a response whose \<open>Vary\<close> header has the field
  value \<open>*\<close>. Header names compare without regard to case; a header value is a list of
  field values separated by commas, with blanks around them.
\<close>

definition lower_char :: "char \<Rightarrow> char" where
  "lower_char c =
     (if (65 :: nat) \<le> of_char c \<and> of_char c \<le> (90 :: nat)
      then char_of (of_char c + (32 :: nat)) else c)"

primrec split_on :: "char \<Rightarrow> string \<Rightarrow> string list" where
  "split_on d [] = [[]]"
| "split_on d (c # cs) =
     (if c = d then [] # split_on d cs
      else (c # hd (split_on d cs)) # tl (split_on d cs))"

definition is_blank :: "char \<Rightarrow> bool" where
  "is_blank c = (c = CHR '' '' \<or> c = CHR 0x09)"

definition trim :: "string \<Rightarrow> string" where
  "trim s = rev (dropWhile is_blank (rev (dropWhile is_blank s)))"

definition header_values :: "response \<Rightarrow> string \<Rightarrow> string list" where
  "header_values r name =
     map snd (filter (\<lambda>h. map lower_char (fst h) = map lower_char name) (headers r))"

definition vary_star :: "response \<Rightarrow> bool" where
  "vary_star r =
     (''*'' \<in> set (map trim (concat (map (split_on CHR '','') (header_values r ''Vary'')))))"

text \<open>
  The cache that \<open>caches.open(name)\<close> hands out, and \<open>caches.open(name)\<close> followed by
  \<open>cache.put(request, response)\<close> on the store. The strategies do not await the \<open>put\<close>;
  the store afterwards is the store once the \<open>put\<close> is done, and when the \<open>put\<close> rejects
  it is the store with the cache opened and nothing written.
\<close>

definition opened :: "cache_storage \<Rightarrow> string \<Rightarrow> sw_cache" where
  "opened st name = (case Map_get st name of None \<Rightarrow> [] | Some c \<Rightarrow> c)"

definition put_in :: "cache_storage \<Rightarrow> string \<Rightarrow> request \<Rightarrow> response \<Rightarrow> cache_storage" where
  "put_in st name req r =
     (let st1 = caches_open st name in
      if vary_star r then st1
      else Map_set st1 name (Cache_put (opened st1 name) req r))"

text \<open>How a promise settles.\<close>

datatype 'a settled = Fulfilled 'a | Rejected js_error

text \<open>
  \<open>cacheFirstStrategy(request)\<close>: the value the returned promise settles with (\<open>None\<close> is
  \<open>undefined\<close>) and the store afterwards.
\<close>

definition cacheFirstStrategy ::
  "(request \<Rightarrow> fetch_result) \<Rightarrow> request \<Rightarrow> cache_storage
     \<Rightarrow> response option settled \<times> cache_storage" where
  "cacheFirstStrategy sw_fetch req st =
     (case caches_match st req of
        Some cachedResponse \<Rightarrow> (Fulfilled (Some cachedResponse), st)
      | None \<Rightarrow>
          (case sw_fetch req of
             Resolves networkResponse \<Rightarrow>
               (Fulfilled (Some networkResponse),
                if status networkResponse = 200
                then put_in st CACHE_NAME req networkResponse else st)
           | Rejects error \<Rightarrow> (Fulfilled (caches_match st ''./index.html''), st)))"

definition offline_response :: response where
  "offline_response =
     \<lparr>status = 503, statusText = ''Service Unavailable'',
      headers = [(''Content-Type'', ''application/json'')],
      body = Inr (JObj [(''error'', JStr ''Offline''),
        (''message'',
         JStr ''You are currently offline. Please check your internet connection.'')])\<rparr>"

text \<open>\<open>networkFirstStrategy(request)\<close>.\<close>

definition networkFirstStrategy ::
  "(request \<Rightarrow> fetch_result) \<Rightarrow> request \<Rightarrow> cache_storage
     \<Rightarrow> response option settled \<times> cache_storage" where
  "networkFirstStrategy sw_fetch req st =
     (case sw_fetch req of
        Resolves networkResponse \<Rightarrow>
          (Fulfilled (Some networkResponse),
           if status networkResponse = 200
           then put_in st RUNTIME_CACHE req networkResponse else st)
      | Rejects error \<Rightarrow>
          (case caches_match st req of
             Some cachedResponse \<Rightarrow> (Fulfilled (Some cachedResponse), st)
           | None \<Rightarrow> (Fulfilled (Some offline_response), st)))"

text \<open>
  \<open>cache.addAll(urls)\<close> of the Cache API: every URL is fetched; one fetch that rejects, or
  one response whose status is not ok or is 206, or whose \<open>Vary\<close> header has \<open>*\<close>, rejects
  the whole call and nothing is stored.
\<close>

fun fetch_all ::
  "(request \<Rightarrow> fetch_result) \<Rightarrow> request list \<Rightarrow> js_error + (request \<times> response) list" where
  "fetch_all sw_fetch [] = Inr []"
| "fetch_all sw_fetch (u # us) =
     (case sw_fetch u of
        Rejects error \<Rightarrow> Inl error
      | Resolves r \<Rightarrow>
          if \<not> ok r then Inl (TypeError ''Request failed'')
          else if status r = 206 then Inl (TypeError ''Request failed'')
          else if vary_star r then Inl (TypeError ''Request failed'')
          else (case fetch_all sw_fetch us of
                  Inl error \<Rightarrow> Inl error
                | Inr rs \<Rightarrow> Inr ((u, r) # rs)))"

definition Cache_addAll ::
  "(request \<Rightarrow> fetch_result) \<Rightarrow> sw_cache \<Rightarrow> request list \<Rightarrow> js_error + sw_cache" where
  "Cache_addAll sw_fetch c urls =
     (case fetch_all sw_fetch urls of
        Inl error \<Rightarrow> Inl error
      | Inr rs \<Rightarrow> Inr (foldl (\<lambda>c' (u, r). Cache_put c' u r) c rs))"

text \<open>\<open>promise.catch(handler)\<close>: a rejection becomes the fulfilment with the handler's value.\<close>

fun promise_catch :: "'a settled \<Rightarrow> (js_error \<Rightarrow> 'a) \<Rightarrow> 'a settled" where
  "promise_catch (Fulfilled v) handler = Fulfilled v"
| "promise_catch (Rejected error) handler = Fulfilled (handler error)"

text \<open>
  The \<open>install\<close> listener. The result is how the promise handed to \<open>event.waitUntil\<close>
  settles, the store afterwards, and whether \<open>skipWaiting\<close> was called. The value of the
  chain is \<open>undefined\<close> at every end, here the unit.
\<close>

definition install_chain ::
  "(request \<Rightarrow> fetch_result) \<Rightarrow> cache_storage \<Rightarrow> unit settled \<times> cache_storage \<times> bool" where
  "install_chain sw_fetch st =
     (let st1 = caches_open st CACHE_NAME in
      case Cache_addAll sw_fetch (opened st1 CACHE_NAME) STATIC_ASSETS of
        Inl error \<Rightarrow> (promise_catch (Rejected error) (\<lambda>error. ()), st1, False)
      | Inr c \<Rightarrow> (promise_catch (Fulfilled ()) (\<lambda>error. ()), Map_set st1 CACHE_NAME c, True))"

text \<open>
  What the browser makes of it: the worker is installed when the promise given to
  \<open>waitUntil\<close> fulfils, and the installation fails when it rejects.
\<close>

datatype install_outcome = Installed | InstallFailed js_error

definition install_event ::
  "(request \<Rightarrow> fetch_result) \<Rightarrow> cache_storage \<Rightarrow> install_outcome \<times> cache_storage \<times> bool" where
  "install_event sw_fetch st =
     (case install_chain sw_fetch st of
        (Fulfilled u, st', skipped) \<Rightarrow> (Installed, st', skipped)
      | (Rejected error, st', skipped) \<Rightarrow> (InstallFailed error, st', skipped))"

text \<open>
  \<open>new URL(request.url).origin\<close>: the scheme, \<open>://\<close>, and the host with its port, which
  end before the first \<open>/\<close>, \<open>?\<close> or \<open>#\<close>. The URL of a request is absolute. An entry of
  the manifest without a scheme is relative to the location of the worker; the app is not
  served from the origin of the API, and such an entry has the opaque origin here.
\<close>

fun split_scheme :: "string \<Rightarrow> (string \<times> string) option" where
  "split_scheme [] = None"
| "split_scheme (c # cs) =
     (if take 3 (c # cs) = ''://'' then Some ([], drop 3 (c # cs))
      else (case split_scheme cs of
              None \<Rightarrow> None
            | Some (scheme, rest) \<Rightarrow> Some (c # scheme, rest)))"

definition URL_origin :: "request \<Rightarrow> string" where
  "URL_origin url =
     (case split_scheme url of
        None \<Rightarrow> ''null''
      | Some (scheme, rest) \<Rightarrow>
          scheme @ ''://'' @ takeWhile (\<lambda>c. c \<notin> set ''/?#'') rest)"

definition API_ORIGIN :: string where
  "API_ORIGIN = ''https://api.dictionaryapi.dev''"

text \<open>The \<open>fetch\<close> listener: what \<open>event.respondWith\<close> is given, and the store afterwards.\<close>

definition fetch_listener ::
  "(request \<Rightarrow> fetch_result) \<Rightarrow> request \<Rightarrow> cache_storage
     \<Rightarrow> response option settled \<times> cache_storage" where
  "fetch_listener sw_fetch req st =
     (if URL_origin req = API_ORIGIN then networkFirstStrategy sw_fetch req st
      else cacheFirstStrategy sw_fetch req st)"

text \<open>The \<open>activate\<close> listener deletes every cache that has neither of the two names.\<close>

definition activate_event :: "cache_storage \<Rightarrow> cache_storage" where
  "activate_event st =
     filter (\<lambda>e. \<not> (fst e \<noteq> CACHE_NAME \<and> fst e \<noteq> RUNTIME_CACHE)) st"

text \<open>The \<open>message\<close> listener: \<open>CLEAR_CACHE\<close> deletes every cache.\<close>

datatype message_type = SKIP_WAITING | CLEAR_CACHE | OtherMessage

fun message_event :: "message_type \<Rightarrow> cache_storage \<Rightarrow> cache_storage" where
  "message_event CLEAR_CACHE st = []"
| "message_event SKIP_WAITING st = st"
| "message_event OtherMessage st = st"

text \<open>
  The events that reach the worker, each with the network of its time, and the store after
  a sequence of them. The worker is the only writer of the store, which is empty before
  the first event.
\<close>

datatype sw_event =
    Install "request \<Rightarrow> fetch_result"
  | Activate
  | Fetch request "request \<Rightarrow> fetch_result"
  | Message message_type

fun handle_event :: "cache_storage \<Rightarrow> sw_event \<Rightarrow> cache_storage" where
  "handle_event st (Install sw_fetch) = fst (snd (install_event sw_fetch st))"
| "handle_event st Activate = activate_event st"
| "handle_event st (Fetch req sw_fetch) = snd (fetch_listener sw_fetch req st)"
| "handle_event st (Message m) = message_event m st"

definition run_events :: "sw_event list \<Rightarrow> cache_storage" where
  "run_events evs = foldl handle_event [] evs"

text \<open>
  A store in which no cache but the runtime cache holds a request to the origin of the API.
\<close>

definition api_free :: "sw_cache \<Rightarrow> bool" where
  "api_free c = list_all (\<lambda>q. URL_origin q \<noteq> API_ORIGIN) (Map_keys c)"

definition runtime_only :: "cache_storage \<Rightarrow> bool" where
  "runtime_only st =
     (wf_map st \<and> list_all (\<lambda>e. fst e = RUNTIME_CACHE \<or> api_free (snd e)) st)"

section \<open>Sample inputs\<close>

text \<open>Fifty distinct words, set one after the other at the clock readings 0 to 49.\<close>

definition fifty_words :: "string list" where
  "fifty_words =
     [''apple'', ''bread'', ''chair'', ''dance'', ''eagle'', ''flame'', ''grape'',
      ''house'', ''image'', ''jewel'', ''knife'', ''lemon'', ''mango'', ''night'',
      ''ocean'', ''piano'', ''queen'', ''river'', ''stone'', ''table'', ''uncle'',
      ''voice'', ''water'', ''xenon'', ''yacht'', ''zebra'', ''amber'', ''beach'',
      ''cloud'', ''dream'', ''earth'', ''frost'', ''glass'', ''heart'', ''index'',
      ''joint'', ''koala'', ''light'', ''music'', ''north'', ''olive'', ''pearl'',
      ''quiet'', ''robin'', ''sugar'', ''tiger'', ''urban'', ''vivid'', ''wheat'',
      ''young'']"

definition fifty_sets :: "string cache_op list" where
  "fifty_sets = map (\<lambda>(w, n). Set w (JStr w) (int n)) (zip fifty_words [0..<50])"

text \<open>
  The first 49 of them, then \<open>apple\<close> (the oldest key) set again, then two new words.
\<close>

definition reset_oldest :: "string cache_op list" where
  "reset_oldest =
     take 49 fifty_sets @
     [Set ''apple'' (JStr ''again'') 100, Set ''xylem'' JNull 101, Set ''yield'' JNull 102]"

definition greeting :: jsval where
  "greeting = JArr [JObj [(''word'', JStr ''hello'')]]"

text \<open>\<open>encodeURIComponent\<close> on a word of ASCII letters returns the word.\<close>

definition encode_letters :: "string \<Rightarrow> string" where
  "encode_letters w = w"

definition network_down :: "string \<Rightarrow> fetch_result" where
  "network_down url = Rejects (TypeError ''Failed to fetch'')"


definition upstream_found :: "jsval \<Rightarrow> string \<Rightarrow> fetch_result" where
  "upstream_found d url =
     Resolves \<lparr>status = 200, statusText = ''OK'', headers = [], body = Inr d\<rparr>"

definition online :: "jsval \<Rightarrow> browser" where
  "online d = \<lparr>encodeURIComponent = encode_letters, fetch = upstream_found d\<rparr>"

definition offline :: browser where
  "offline = \<lparr>encodeURIComponent = encode_letters, fetch = network_down\<rparr>"


definition fresh_page :: page where
  "fresh_page = \<lparr>cache = [], requests = []\<rparr>"

definition page_with :: "string \<Rightarrow> jsval \<Rightarrow> int \<Rightarrow> page" where
  "page_with w d t = \<lparr>cache = [(w, \<lparr>data = d, timestamp = t\<rparr>)], requests = []\<rparr>"

definition hello_url :: request where
  "hello_url = ''https://api.dictionaryapi.dev/api/v2/entries/en/hello''"

definition stored :: "string \<Rightarrow> response" where
  "stored s = \<lparr>status = 200, statusText = ''OK'', headers = [], body = Inr (JStr s)\<rparr>"

text \<open>A network on which every asset is there but the stylesheet.\<close>

definition missing_stylesheet :: "request \<Rightarrow> fetch_result" where
  "missing_stylesheet url =
     (if url = ''./style.css''
      then Resolves \<lparr>status = 404, statusText = ''Not Found'', headers = [],
             body = Inl (SyntaxError ''Unexpected token'')\<rparr>
      else Resolves (stored url))"

text \<open>A cache of two words, below capacity, and the entry that \<open>fifty_sets\<close> starts with.\<close>

definition two_words :: "string cache" where
  "two_words = [(''apple'', \<lparr>data = JNull, timestamp = 5\<rparr>),
                (''bread'', \<lparr>data = JNull, timestamp = 6\<rparr>)]"

definition apple0 :: item where
  "apple0 = \<lparr>data = JStr ''apple'', timestamp = 0\<rparr>"



text \<open>
  A network that serves every asset, and a first visit: the worker is installed and
  activated, and the page looks up \<open>hello\<close>.
\<close>

definition all_served :: "request \<Rightarrow> fetch_result" where
  "all_served url = Resolves (stored url)"

definition first_visit :: "sw_event list" where
  "first_visit = [Install all_served, Activate, Fetch hello_url (upstream_found greeting)]"

section \<open>Facts about the map\<close>

lemma Map_keys_set:
  "Map_keys (Map_set m k v) = (if Map_has m k then Map_keys m else Map_keys m @ [k])"
  by (induction m) (auto simp: Map_keys_def Map_has_def)

lemma Map_get_set: "Map_get (Map_set m k v) k' = (if k' = k then Some v else Map_get m k')"
  by (induction m) (auto simp: Map_get_def)

lemma Map_set_new: "\<not> Map_has m k \<Longrightarrow> Map_set m k v = m @ [(k, v)]"
  by (induction m) (auto simp: Map_has_def Map_keys_def)

lemma Map_size_set:
  "Map_size (Map_set m k v) = (if Map_has m k then Map_size m else Suc (Map_size m))"
  by (induction m) (auto simp: Map_size_def Map_has_def Map_keys_def)

lemma wf_map_set: "wf_map m \<Longrightarrow> wf_map (Map_set m k v)"
  by (simp add: wf_map_def Map_keys_set Map_has_def)

lemma Map_keys_delete: "Map_keys (Map_delete m k) = filter (\<lambda>x. x \<noteq> k) (Map_keys m)"
  by (induction m) (auto simp: Map_keys_def Map_delete_def)

lemma wf_map_delete: "wf_map m \<Longrightarrow> wf_map (Map_delete m k)"
  by (simp add: wf_map_def Map_keys_delete)

lemma Map_size_delete_le: "Map_size (Map_delete m k) \<le> Map_size m"
  by (simp add: Map_size_def Map_delete_def)

lemma Map_delete_first:
  "wf_map ((k, v) # m) \<Longrightarrow> Map_delete ((k, v) # m) k = m"
  by (auto simp: wf_map_def Map_keys_def Map_delete_def filter_id_conv)

lemma Map_delete_absent: "\<not> Map_has m k \<Longrightarrow> Map_delete m k = m"
  by (auto simp: Map_has_def Map_keys_def Map_delete_def filter_id_conv)

lemma Map_delete_middle:
  assumes "wf_map (xs @ (k, v) # ys)"
  shows "Map_delete (xs @ (k, v) # ys) k = xs @ ys"
proof -
  from assms have "\<not> Map_has xs k" and "\<not> Map_has ys k"
    by (auto simp: wf_map_def Map_keys_def Map_has_def)
  then have "Map_delete xs k = xs" and "Map_delete ys k = ys"
    by (simp_all add: Map_delete_absent)
  then show ?thesis
    by (simp add: Map_delete_def)
qed


lemma Map_get_None_iff: "Map_get m k = None \<longleftrightarrow> \<not> Map_has m k"
  by (simp add: Map_get_def Map_has_def Map_keys_def map_of_eq_None_iff)

lemma Map_get_middle:
  "wf_map (xs @ (k, v) # ys) \<Longrightarrow> Map_get (xs @ (k, v) # ys) k = Some v"
  by (induction xs) (auto simp: wf_map_def Map_keys_def Map_get_def)

section \<open>Facts about \<open>CacheManager\<close>\<close>

lemma CacheManager_set_has:
  "Map_get (CacheManager_set c k v t) k = Some \<lparr>data = v, timestamp = t\<rparr>"
  by (simp add: CacheManager_set_def Let_def Map_get_set)

lemma CacheManager_get_valid:
  "Map_get c k = Some it \<Longrightarrow> t - timestamp it \<le> CACHE_DURATION \<Longrightarrow>
   CacheManager_get c k t = (data it, c)"
  by (simp add: CacheManager_get_def)

lemma wf_CacheManager_get: "wf_map c \<Longrightarrow> wf_map (snd (CacheManager_get c k now))"
  by (auto simp: CacheManager_get_def Let_def wf_map_delete split: option.splits)

lemma size_CacheManager_get: "Map_size (snd (CacheManager_get c k now)) \<le> Map_size c"
  by (auto simp: CacheManager_get_def Let_def Map_size_delete_le split: option.splits)

lemma CacheManager_get_keeps_order:
  "snd (CacheManager_get c k now) = c \<or> snd (CacheManager_get c k now) = Map_delete c k"
  by (auto simp: CacheManager_get_def Let_def split: option.splits)

lemma wf_CacheManager_set: "wf_map c \<Longrightarrow> wf_map (CacheManager_set c k v t)"
  by (auto simp: CacheManager_set_def Let_def wf_map_delete wf_map_set split: list.splits)

text \<open>At capacity the map is not empty, and what \<open>set\<close> deletes is its first entry.\<close>

lemma evict_first:
  assumes "wf_map c" "Map_size c = MAX_CACHE_SIZE"
  shows "\<exists>k0 i0 rest. c = (k0, i0) # rest \<and>
     (case Map_keys c of [] \<Rightarrow> c | firstKey # _ \<Rightarrow> Map_delete c firstKey) = rest"
proof (cases c)
  case Nil
  with assms show ?thesis by (simp add: Map_size_def MAX_CACHE_SIZE_def)
next
  case (Cons e rest)
  obtain k0 i0 where e: "e = (k0, i0)" by (cases e)
  with Cons assms(1) have "Map_delete c k0 = rest"
    by (simp add: Map_delete_first)
  with Cons e show ?thesis by (simp add: Map_keys_def)
qed

lemma size_CacheManager_set:
  assumes "wf_map c" "Map_size c \<le> MAX_CACHE_SIZE"
  shows "Map_size (CacheManager_set c k v t) \<le> MAX_CACHE_SIZE"
proof (cases "Map_size c = MAX_CACHE_SIZE")
  case True
  from evict_first[OF assms(1) True] obtain k0 i0 rest where
    c: "c = (k0, i0) # rest" and
    d: "(case Map_keys c of [] \<Rightarrow> c | firstKey # _ \<Rightarrow> Map_delete c firstKey) = rest"
    by blast
  from c True have "Suc (Map_size rest) = MAX_CACHE_SIZE" by (simp add: Map_size_def)
  with True d show ?thesis
    by (simp add: CacheManager_set_def Map_size_set)
next
  case False
  with assms(2) have "Map_size c < MAX_CACHE_SIZE" by simp
  then show ?thesis
    by (simp add: CacheManager_set_def Map_size_set)
qed

lemma apply_op_inv:
  assumes "wf_map c \<and> Map_size c \<le> MAX_CACHE_SIZE"
  shows "wf_map (apply_op c x) \<and> Map_size (apply_op c x) \<le> MAX_CACHE_SIZE"
proof (cases x)
  case (Get k now)
  with assms show ?thesis
    using size_CacheManager_get[of c k now] by (simp add: wf_CacheManager_get)
next
  case (Set k d now)
  with assms show ?thesis by (simp add: wf_CacheManager_set size_CacheManager_set)
next
  case Clear
  then show ?thesis by (simp add: CacheManager_clear_def wf_map_def Map_keys_def Map_size_def)
qed

lemma run_ops_inv:
  "wf_map c \<and> Map_size c \<le> MAX_CACHE_SIZE \<Longrightarrow>
   wf_map (run_ops ops c) \<and> Map_size (run_ops ops c) \<le> MAX_CACHE_SIZE"
  unfolding run_ops_def
proof (induction ops arbitrary: c)
  case Nil
  then show ?case by simp
next
  case (Cons x ops)
  from apply_op_inv[OF Cons.prems] show ?case
    by (simp add: Cons.IH)
qed

section \<open>The lookup cache\<close>

text \<open>
  Claim C2. A \<open>get(k)\<close> after \<open>set(k, v)\<close>, with the clock no more than
  \<open>CACHE_DURATION\<close> (3,600,000 ms) past the clock of the set, returns \<open>v\<close>; and an entry
  is valid exactly while \<open>now - timestamp \<le> CACHE_DURATION\<close>: then \<open>get\<close> returns its
  data and leaves the cache alone, otherwise it returns \<open>null\<close> and deletes the entry.
\<close>

theorem get_after_set_within_ttl:
  "(t1 - t0 \<le> CACHE_DURATION \<longrightarrow>
      fst (CacheManager_get (CacheManager_set c k v t0) k t1) = v)
   \<and> (Map_get c k = Some it \<longrightarrow>
        CacheManager_get c k now =
          (if now - timestamp it \<le> CACHE_DURATION then (data it, c)
           else (JNull, Map_delete c k)))"
  by (auto simp: CacheManager_get_def CacheManager_set_has Let_def)

theorem get_after_set_within_ttl_witness:
  "(3601000 :: int) - 1000 \<le> CACHE_DURATION
   \<and> fst (CacheManager_get (CacheManager_set [] ''hello'' greeting 1000) ''hello'' 3601000)
       = greeting
   \<and> Map_get [(''hello'', \<lparr>data = greeting, timestamp = 1000\<rparr>)] ''hello''
       = Some \<lparr>data = greeting, timestamp = 1000\<rparr>
   \<and> CacheManager_get [(''hello'', \<lparr>data = greeting, timestamp = 1000\<rparr>)] ''hello'' 3601001
       = (JNull, [])"
proof -
  have h: "(3601000 :: int) - 1000 \<le> CACHE_DURATION
    \<and> Map_get [(''hello'', \<lparr>data = greeting, timestamp = 1000\<rparr>)] ''hello''
       = Some \<lparr>data = greeting, timestamp = 1000\<rparr>"
    by (simp add: CACHE_DURATION_def Map_get_def)
  from h
    get_after_set_within_ttl [where ?t1.0 = 3601000 and ?t0.0 = 1000 and c = "[]"
      and k = "''hello''" and v = greeting]
    get_after_set_within_ttl [where c = "[(''hello'', \<lparr>data = greeting, timestamp = 1000\<rparr>)]"
      and k = "''hello''" and it = "\<lparr>data = greeting, timestamp = 1000\<rparr>"
      and now = 3601001]
  show ?thesis
    by (simp add: CACHE_DURATION_def Map_delete_def)
qed

text \<open>
  Claim C6. \<open>get(k)\<close> on an entry that is present and expired returns \<open>null\<close> and removes
  that entry and no other: the entries before it and after it stay, in their order.
  \<open>get(k)\<close> on an absent key returns \<open>null\<close> and leaves the cache as it was. Both are
  returned values; \<open>get\<close> has no error.
\<close>

theorem get_miss_frame:
  "(wf_map c \<and> c = xs @ (k, it) # ys \<and> now - timestamp it > CACHE_DURATION \<longrightarrow>
      CacheManager_get c k now = (JNull, xs @ ys))
   \<and> (\<not> Map_has c k \<longrightarrow> CacheManager_get c k now = (JNull, c))"
proof (intro conjI impI)
  assume a: "wf_map c \<and> c = xs @ (k, it) # ys \<and> now - timestamp it > CACHE_DURATION"
  then have w: "wf_map (xs @ (k, it) # ys)" and c: "c = xs @ (k, it) # ys"
    and e: "now - timestamp it > CACHE_DURATION"
    by blast+
  from w have "Map_get (xs @ (k, it) # ys) k = Some it"
    by (rule Map_get_middle)
  with w e show "CacheManager_get c k now = (JNull, xs @ ys)"
    unfolding c by (simp add: CacheManager_get_def Map_delete_middle)
next
  assume "\<not> Map_has c k"
  then have "Map_get c k = None"
    by (simp add: Map_get_None_iff)
  then show "CacheManager_get c k now = (JNull, c)"
    by (simp add: CacheManager_get_def)
qed

theorem get_miss_frame_witness:
  "wf_map [(''apple'', \<lparr>data = JNull, timestamp = 5\<rparr>),
           (''hello'', \<lparr>data = greeting, timestamp = 0\<rparr>),
           (''zebra'', \<lparr>data = JNull, timestamp = 9\<rparr>)]
   \<and> (3600001 :: int) - 0 > CACHE_DURATION
   \<and> CacheManager_get [(''apple'', \<lparr>data = JNull, timestamp = 5\<rparr>),
           (''hello'', \<lparr>data = greeting, timestamp = 0\<rparr>),
           (''zebra'', \<lparr>data = JNull, timestamp = 9\<rparr>)] ''hello'' 3600001
       = (JNull, [(''apple'', \<lparr>data = JNull, timestamp = 5\<rparr>),
                  (''zebra'', \<lparr>data = JNull, timestamp = 9\<rparr>)])
   \<and> \<not> Map_has [(''apple'', \<lparr>data = JNull, timestamp = 5\<rparr>)] ''hello''
   \<and> CacheManager_get [(''apple'', \<lparr>data = JNull, timestamp = 5\<rparr>)] ''hello'' 3600001
       = (JNull, [(''apple'', \<lparr>data = JNull, timestamp = 5\<rparr>)])"
proof -
  have h: "wf_map [(''apple'', \<lparr>data = JNull, timestamp = 5\<rparr>),
           (''hello'', \<lparr>data = greeting, timestamp = 0\<rparr>),
           (''zebra'', \<lparr>data = JNull, timestamp = 9\<rparr>)]
   \<and> (3600001 :: int) - 0 > CACHE_DURATION
   \<and> \<not> Map_has [(''apple'', \<lparr>data = JNull, timestamp = 5\<rparr>)] ''hello''"
    by (simp add: wf_map_def Map_keys_def Map_has_def CACHE_DURATION_def)
  from h
    get_miss_frame [where c = "[(''apple'', \<lparr>data = JNull, timestamp = 5\<rparr>),
           (''hello'', \<lparr>data = greeting, timestamp = 0\<rparr>),
           (''zebra'', \<lparr>data = JNull, timestamp = 9\<rparr>)]"
      and xs = "[(''apple'', \<lparr>data = JNull, timestamp = 5\<rparr>)]" and k = "''hello''"
      and it = "\<lparr>data = greeting, timestamp = 0\<rparr>"
      and ys = "[(''zebra'', \<lparr>data = JNull, timestamp = 9\<rparr>)]" and now = 3600001]
    get_miss_frame [where c = "[(''apple'', \<lparr>data = JNull, timestamp = 5\<rparr>)]"
      and k = "''hello''" and now = 3600001]
  show ?thesis by simp
qed

text \<open>
  Claim C3. Starting from the empty cache, after any sequence of \<open>get\<close>, \<open>set\<close> and
  \<open>clear\<close> calls the cache holds at most \<open>MAX_CACHE_SIZE\<close> (50) entries. When it holds
  50 and a new key is set, the entry deleted is the first one in insertion order and no
  other, and the new entry goes to the end. A \<open>get\<close> never reorders: it leaves the cache
  as it is or deletes the key it asked for.
\<close>

theorem size_bounded_fifo_eviction:
  "Map_size (run_ops ops []) \<le> MAX_CACHE_SIZE
   \<and> (Map_size (run_ops ops []) = MAX_CACHE_SIZE \<and> \<not> Map_has (run_ops ops []) k \<longrightarrow>
        (\<exists>k0 i0 rest. run_ops ops [] = (k0, i0) # rest
           \<and> CacheManager_set (run_ops ops []) k v t
               = rest @ [(k, \<lparr>data = v, timestamp = t\<rparr>)]))
   \<and> (snd (CacheManager_get c j now) = c \<or> snd (CacheManager_get c j now) = Map_delete c j)"
proof -
  have inv: "wf_map (run_ops ops ([] :: 'a cache))
      \<and> Map_size (run_ops ops ([] :: 'a cache)) \<le> MAX_CACHE_SIZE"
    by (rule run_ops_inv) (simp add: wf_map_def Map_keys_def Map_size_def)
  have evict: "\<exists>k0 i0 rest. run_ops ops [] = (k0, i0) # rest
           \<and> CacheManager_set (run_ops ops []) k v t
               = rest @ [(k, \<lparr>data = v, timestamp = t\<rparr>)]"
    if a: "Map_size (run_ops ops []) = MAX_CACHE_SIZE \<and> \<not> Map_has (run_ops ops []) k"
  proof -
    from inv a evict_first[of "run_ops ops []"] obtain k0 i0 rest where
      c: "run_ops ops [] = (k0, i0) # rest" and
      d: "(case Map_keys (run_ops ops []) of [] \<Rightarrow> run_ops ops []
           | firstKey # _ \<Rightarrow> Map_delete (run_ops ops []) firstKey) = rest"
      by blast
    from a c have "\<not> Map_has rest k" by (simp add: Map_has_def Map_keys_def)
    then have "Map_set rest k \<lparr>data = v, timestamp = t\<rparr>
        = rest @ [(k, \<lparr>data = v, timestamp = t\<rparr>)]"
      by (rule Map_set_new)
    with a d have "CacheManager_set (run_ops ops []) k v t
        = rest @ [(k, \<lparr>data = v, timestamp = t\<rparr>)]"
      by (simp add: CacheManager_set_def)
    with c show ?thesis by blast
  qed
  from inv evict CacheManager_get_keeps_order[of c j now] show ?thesis
    by blast
qed

theorem size_bounded_fifo_eviction_witness:
  "Map_size (run_ops fifty_sets []) = MAX_CACHE_SIZE
   \<and> \<not> Map_has (run_ops fifty_sets []) ''zesty''
   \<and> CacheManager_set (run_ops fifty_sets []) ''zesty'' JNull 99
       = tl (run_ops fifty_sets []) @ [(''zesty'', \<lparr>data = JNull, timestamp = 99\<rparr>)]
   \<and> hd (run_ops fifty_sets []) = (''apple'', \<lparr>data = JStr ''apple'', timestamp = 0\<rparr>)"
proof -
  have h: "Map_size (run_ops fifty_sets []) = MAX_CACHE_SIZE
             \<and> \<not> Map_has (run_ops fifty_sets []) ''zesty''"
    by code_simp
  have f: "hd (run_ops fifty_sets []) = (''apple'', \<lparr>data = JStr ''apple'', timestamp = 0\<rparr>)"
    by code_simp
  from size_bounded_fifo_eviction [where ops = fifty_sets and k = "''zesty''" and v = JNull
      and t = 99 and c = "run_ops fifty_sets []" and j = "''apple''" and now = 0] h
  obtain k0 i0 rest where "run_ops fifty_sets [] = (k0, i0) # rest"
    and "CacheManager_set (run_ops fifty_sets []) ''zesty'' JNull 99
           = rest @ [(''zesty'', \<lparr>data = JNull, timestamp = 99\<rparr>)]"
    by blast
  with h f show ?thesis by simp
qed

lemma Map_has_Cons: "Map_has ((a, b) # m) k = (a = k \<or> Map_has m k)"
  by (auto simp: Map_has_def Map_keys_def)

lemma wf_map_Cons: "wf_map ((a, b) # m) = (\<not> Map_has m a \<and> wf_map m)"
  by (auto simp: wf_map_def Map_has_def Map_keys_def)

lemma CacheManager_set_at_capacity:
  assumes "wf_map ((k0, i0) # rest)" "MAX_CACHE_SIZE \<le> Map_size ((k0, i0) # rest)"
  shows "CacheManager_set ((k0, i0) # rest) k v t = Map_set rest k \<lparr>data = v, timestamp = t\<rparr>"
  using assms by (simp add: CacheManager_set_def Map_keys_def Map_delete_first)

text \<open>
  Claim C4, as the code has it. \<open>set(k, v)\<close> on a key that is present stores the new
  value with the new timestamp. Below capacity it leaves every key, \<open>k\<close> too, at the
  position it had (\<open>Map.prototype.set\<close> does not move a key that exists): a key that was
  the oldest is still the oldest afterwards, and the oldest key is the one that a later
  insertion at capacity evicts. At capacity the oldest key is deleted before the write:
  when that key is \<open>k\<close> itself the call equals delete-then-insert and \<open>k\<close> becomes the
  newest; when it is another key, that key is evicted and \<open>k\<close> keeps its position.
\<close>

theorem reset_keeps_position:
  "Map_get (CacheManager_set c k v t) k = Some \<lparr>data = v, timestamp = t\<rparr>
   \<and> (Map_has c k \<and> Map_size c < MAX_CACHE_SIZE \<longrightarrow>
        Map_keys (CacheManager_set c k v t) = Map_keys c)
   \<and> (Map_size ((k, i) # rest) < MAX_CACHE_SIZE \<longrightarrow>
        CacheManager_set ((k, i) # rest) k v t = (k, \<lparr>data = v, timestamp = t\<rparr>) # rest)
   \<and> (wf_map ((k, i) # rest) \<and> MAX_CACHE_SIZE \<le> Map_size ((k, i) # rest) \<and> j \<noteq> k \<longrightarrow>
        \<not> Map_has (CacheManager_set ((k, i) # rest) j w u) k)
   \<and> (wf_map ((k, i) # rest) \<and> Map_size ((k, i) # rest) = MAX_CACHE_SIZE \<longrightarrow>
        CacheManager_set ((k, i) # rest) k v t = rest @ [(k, \<lparr>data = v, timestamp = t\<rparr>)]
        \<and> CacheManager_set ((k, i) # rest) k v t
            = CacheManager_set (Map_delete ((k, i) # rest) k) k v t)
   \<and> (wf_map ((k0, i0) # rest) \<and> k0 \<noteq> k \<and> Map_has rest k
        \<and> MAX_CACHE_SIZE \<le> Map_size ((k0, i0) # rest) \<longrightarrow>
        Map_keys (CacheManager_set ((k0, i0) # rest) k v t) = Map_keys rest)"
proof (intro conjI impI)
  show "Map_get (CacheManager_set c k v t) k = Some \<lparr>data = v, timestamp = t\<rparr>"
    by (rule CacheManager_set_has)
next
  assume "Map_has c k \<and> Map_size c < MAX_CACHE_SIZE"
  then show "Map_keys (CacheManager_set c k v t) = Map_keys c"
    by (simp add: CacheManager_set_def Map_keys_set)
next
  assume "Map_size ((k, i) # rest) < MAX_CACHE_SIZE"
  then show "CacheManager_set ((k, i) # rest) k v t = (k, \<lparr>data = v, timestamp = t\<rparr>) # rest"
    by (simp add: CacheManager_set_def)
next
  assume a: "wf_map ((k, i) # rest) \<and> MAX_CACHE_SIZE \<le> Map_size ((k, i) # rest) \<and> j \<noteq> k"
  then have "CacheManager_set ((k, i) # rest) j w u = Map_set rest j \<lparr>data = w, timestamp = u\<rparr>"
    by (simp add: CacheManager_set_at_capacity)
  moreover from a have "\<not> Map_has rest k"
    by (simp add: wf_map_Cons)
  moreover from a have "j \<noteq> k" by blast
  ultimately show "\<not> Map_has (CacheManager_set ((k, i) # rest) j w u) k"
    by (auto simp: Map_has_def Map_keys_set)
next
  assume a: "wf_map ((k, i) # rest) \<and> Map_size ((k, i) # rest) = MAX_CACHE_SIZE"
  then have n: "\<not> Map_has rest k"
    by (simp add: wf_map_Cons)
  from a have "CacheManager_set ((k, i) # rest) k v t = Map_set rest k \<lparr>data = v, timestamp = t\<rparr>"
    by (simp add: CacheManager_set_at_capacity)
  with n show e: "CacheManager_set ((k, i) # rest) k v t
      = rest @ [(k, \<lparr>data = v, timestamp = t\<rparr>)]"
    by (simp add: Map_set_new)
  from a have "Map_delete ((k, i) # rest) k = rest"
    by (simp add: Map_delete_first)
  moreover from a have "Map_size rest < MAX_CACHE_SIZE"
    by (simp add: Map_size_def)
  ultimately have "CacheManager_set (Map_delete ((k, i) # rest) k) k v t
      = rest @ [(k, \<lparr>data = v, timestamp = t\<rparr>)]"
    using n by (simp add: CacheManager_set_def Map_set_new)
  with e show "CacheManager_set ((k, i) # rest) k v t
            = CacheManager_set (Map_delete ((k, i) # rest) k) k v t"
    by simp
next
  assume a: "wf_map ((k0, i0) # rest) \<and> k0 \<noteq> k \<and> Map_has rest k
        \<and> MAX_CACHE_SIZE \<le> Map_size ((k0, i0) # rest)"
  then have "CacheManager_set ((k0, i0) # rest) k v t
      = Map_set rest k \<lparr>data = v, timestamp = t\<rparr>"
    by (simp add: CacheManager_set_at_capacity)
  with a show "Map_keys (CacheManager_set ((k0, i0) # rest) k v t) = Map_keys rest"
    by (simp add: Map_keys_set)
qed

theorem reset_keeps_position_witness:
  "Map_has two_words ''apple'' \<and> Map_size two_words < MAX_CACHE_SIZE
   \<and> CacheManager_set two_words ''apple'' greeting 7
       = [(''apple'', \<lparr>data = greeting, timestamp = 7\<rparr>),
          (''bread'', \<lparr>data = JNull, timestamp = 6\<rparr>)]
   \<and> wf_map (run_ops fifty_sets [])
   \<and> Map_size (run_ops fifty_sets []) = MAX_CACHE_SIZE
   \<and> run_ops fifty_sets [] = (''apple'', apple0) # tl (run_ops fifty_sets [])
   \<and> \<not> Map_has (CacheManager_set (run_ops fifty_sets []) ''zesty'' JNull 99) ''apple''
   \<and> CacheManager_set (run_ops fifty_sets []) ''apple'' greeting 99
       = tl (run_ops fifty_sets []) @ [(''apple'', \<lparr>data = greeting, timestamp = 99\<rparr>)]
   \<and> Map_has (tl (run_ops fifty_sets [])) ''bread''
   \<and> Map_keys (CacheManager_set (run_ops fifty_sets []) ''bread'' greeting 99)
       = Map_keys (tl (run_ops fifty_sets []))"
proof -
  have h1: "Map_has two_words ''apple'' \<and> Map_size two_words < MAX_CACHE_SIZE
     \<and> two_words = (''apple'', \<lparr>data = JNull, timestamp = 5\<rparr>)
                     # [(''bread'', \<lparr>data = JNull, timestamp = 6\<rparr>)]"
    by (simp add: two_words_def Map_has_def Map_keys_def Map_size_def MAX_CACHE_SIZE_def)
  have h2: "wf_map (run_ops fifty_sets [])
     \<and> Map_size (run_ops fifty_sets []) = MAX_CACHE_SIZE
     \<and> Map_has (tl (run_ops fifty_sets [])) ''bread''"
    by code_simp
  have h3: "run_ops fifty_sets [] = (''apple'', apple0) # tl (run_ops fifty_sets [])"
    by code_simp
  have h4: "''zesty'' \<noteq> ''apple'' \<and> ''apple'' \<noteq> ''bread''"
    by simp
  from h1
    reset_keeps_position [where c = two_words and k = "''apple''" and v = greeting and t = 7
      and i = "\<lparr>data = JNull, timestamp = 5\<rparr>"
      and rest = "[(''bread'', \<lparr>data = JNull, timestamp = 6\<rparr>)]"]
  have a: "CacheManager_set two_words ''apple'' greeting 7
       = [(''apple'', \<lparr>data = greeting, timestamp = 7\<rparr>),
          (''bread'', \<lparr>data = JNull, timestamp = 6\<rparr>)]"
    by simp
  from h2 h3 h4
    reset_keeps_position [where k = "''apple''" and i = apple0
      and rest = "tl (run_ops fifty_sets [])" and j = "''zesty''" and w = JNull and u = 99
      and v = greeting and t = 99]
  have b: "\<not> Map_has (CacheManager_set (run_ops fifty_sets []) ''zesty'' JNull 99) ''apple''
     \<and> CacheManager_set (run_ops fifty_sets []) ''apple'' greeting 99
       = tl (run_ops fifty_sets []) @ [(''apple'', \<lparr>data = greeting, timestamp = 99\<rparr>)]"
    by simp
  from h2 h3 h4
    reset_keeps_position [where k = "''bread''" and ?k0.0 = "''apple''" and ?i0.0 = apple0
      and rest = "tl (run_ops fifty_sets [])" and v = greeting and t = 99]
  have c: "Map_keys (CacheManager_set (run_ops fifty_sets []) ''bread'' greeting 99)
       = Map_keys (tl (run_ops fifty_sets []))"
    by simp
  from h1 h2 h3 a b c show ?thesis by simp
qed

text \<open>
  Against claim C4 as stated. Setting \<open>apple\<close> again in a cache of two keys does not equal
  deleting it and inserting it: the keys stay \<open>apple, bread\<close>. And with 49 words in the
  cache, \<open>apple\<close> the oldest, setting \<open>apple\<close> again and then two new words evicts
  \<open>apple\<close>, while \<open>bread\<close>, inserted before \<open>apple\<close> was set again, is still there.
\<close>

theorem reset_position_counterexample:
  "Map_keys (CacheManager_set [(''apple'', \<lparr>data = JNull, timestamp = 5\<rparr>),
                               (''bread'', \<lparr>data = JNull, timestamp = 6\<rparr>)] ''apple'' greeting 7)
     = [''apple'', ''bread'']
   \<and> Map_keys (CacheManager_set
        (Map_delete [(''apple'', \<lparr>data = JNull, timestamp = 5\<rparr>),
                     (''bread'', \<lparr>data = JNull, timestamp = 6\<rparr>)] ''apple'') ''apple'' greeting 7)
     = [''bread'', ''apple'']
   \<and> Map_has (run_ops (take 49 fifty_sets) []) ''apple''
   \<and> Map_has (run_ops reset_oldest []) ''bread''
   \<and> \<not> Map_has (run_ops reset_oldest []) ''apple''"
  by code_simp

section \<open>Facts about \<open>fetchWord\<close>\<close>



lemma fetchWord_hit:
  assumes "CacheManager_get (cache p) k t = (d, c1)" "truthy d"
  shows "fetchWord b t t_set k p = (Inr d, p\<lparr>cache := c1\<rparr>)"
  using assms by (simp add: fetchWord_def)

lemma fetchWord_miss_success:
  assumes "CacheManager_get (cache p) k t = (d0, c1)" "\<not> truthy d0"
    "fetch b (API_URL @ encodeURIComponent b k) = Resolves r" "ok r" "body r = Inr d"
  shows "fetchWord b t t_set k p =
    (Inr d, p\<lparr>cache := CacheManager_set c1 k d t_set,
               requests := requests p @ [API_URL @ encodeURIComponent b k]\<rparr>)"
  using assms by (simp add: fetchWord_def Let_def)


section \<open>\<open>fetchWord\<close> and the lookup cache\<close>

text \<open>
  Claim C1, as the code has it. For a key whose cache entry is unexpired and holds a
  truthy value, \<open>fetchWord\<close> returns that value and leaves the page as it was: no request,
  no change of the cache. So when a first \<open>fetchWord(k)\<close> misses and the upstream answers
  with a truthy payload, a second \<open>fetchWord(k)\<close> within \<open>CACHE_DURATION\<close> of the store
  returns the same payload, whatever the network then does, and the two calls made one
  request.
\<close>

theorem fetchWord_truthy_hit_no_request:
  "(Map_get (cache p) k = Some it \<and> t - timestamp it \<le> CACHE_DURATION \<and> truthy (data it)
      \<longrightarrow> fetchWord b t t_set k p = (Inr (data it), p))
   \<and> (\<not> truthy (fst (CacheManager_get (cache p) k t0))
        \<and> fetch b1 (API_URL @ encodeURIComponent b1 k) = Resolves r
        \<and> ok r \<and> body r = Inr d \<and> truthy d \<and> t2 - t1 \<le> CACHE_DURATION
      \<longrightarrow> fst (fetchWord b1 t0 t1 k p) = Inr d
          \<and> requests (snd (fetchWord b1 t0 t1 k p))
              = requests p @ [API_URL @ encodeURIComponent b1 k]
          \<and> fetchWord b2 t2 t3 k (snd (fetchWord b1 t0 t1 k p))
              = (Inr d, snd (fetchWord b1 t0 t1 k p)))"
proof (intro conjI impI)
  assume a: "Map_get (cache p) k = Some it \<and> t - timestamp it \<le> CACHE_DURATION
               \<and> truthy (data it)"
  then have "CacheManager_get (cache p) k t = (data it, cache p)"
    by (simp add: CacheManager_get_valid)
  from fetchWord_hit[OF this] a show "fetchWord b t t_set k p = (Inr (data it), p)"
    by simp
next
  assume a: "\<not> truthy (fst (CacheManager_get (cache p) k t0))
        \<and> fetch b1 (API_URL @ encodeURIComponent b1 k) = Resolves r
        \<and> ok r \<and> body r = Inr d \<and> truthy d \<and> t2 - t1 \<le> CACHE_DURATION"
  obtain d0 c1 where g: "CacheManager_get (cache p) k t0 = (d0, c1)"
    by (cases "CacheManager_get (cache p) k t0")
  define p1 where
    "p1 = p\<lparr>cache := CacheManager_set c1 k d t1,
            requests := requests p @ [API_URL @ encodeURIComponent b1 k]\<rparr>"
  from a g have "\<not> truthy d0" by simp
  moreover from a have "fetch b1 (API_URL @ encodeURIComponent b1 k) = Resolves r"
    and "ok r" and "body r = Inr d"
    by blast+
  ultimately have first: "fetchWord b1 t0 t1 k p = (Inr d, p1)"
    unfolding p1_def using g by (intro fetchWord_miss_success)
  have "Map_get (cache p1) k = Some \<lparr>data = d, timestamp = t1\<rparr>"
    by (simp add: p1_def CacheManager_set_has)
  with a have "CacheManager_get (cache p1) k t2 = (d, cache p1)"
    using CacheManager_get_valid[of "cache p1" k "\<lparr>data = d, timestamp = t1\<rparr>" t2] by simp
  from fetchWord_hit[OF this] a have "fetchWord b2 t2 t3 k p1 = (Inr d, p1)"
    by simp
  with first show "fst (fetchWord b1 t0 t1 k p) = Inr d"
    and "requests (snd (fetchWord b1 t0 t1 k p))
           = requests p @ [API_URL @ encodeURIComponent b1 k]"
    and "fetchWord b2 t2 t3 k (snd (fetchWord b1 t0 t1 k p))
           = (Inr d, snd (fetchWord b1 t0 t1 k p))"
    by (simp_all add: p1_def)
qed

theorem fetchWord_truthy_hit_no_request_witness:
  "Map_get (cache (page_with ''hello'' greeting 1000)) ''hello''
     = Some \<lparr>data = greeting, timestamp = 1000\<rparr>
   \<and> (2000 :: int) - 1000 \<le> CACHE_DURATION \<and> truthy greeting
   \<and> fetchWord offline 2000 2500 ''hello'' (page_with ''hello'' greeting 1000)
       = (Inr greeting, page_with ''hello'' greeting 1000)
   \<and> \<not> truthy (fst (CacheManager_get (cache fresh_page) ''hello'' 1000))
   \<and> (5000 :: int) - 1200 \<le> CACHE_DURATION
   \<and> fst (fetchWord (online greeting) 1000 1200 ''hello'' fresh_page) = Inr greeting
   \<and> requests (snd (fetchWord (online greeting) 1000 1200 ''hello'' fresh_page))
       = [API_URL @ ''hello'']
   \<and> fetchWord offline 5000 5200 ''hello''
         (snd (fetchWord (online greeting) 1000 1200 ''hello'' fresh_page))
       = (Inr greeting, snd (fetchWord (online greeting) 1000 1200 ''hello'' fresh_page))"
proof -
  have h1: "Map_get (cache (page_with ''hello'' greeting 1000)) ''hello''
     = Some \<lparr>data = greeting, timestamp = 1000\<rparr>
   \<and> (2000 :: int) - 1000 \<le> CACHE_DURATION \<and> truthy greeting"
    by (simp add: page_with_def Map_get_def CACHE_DURATION_def greeting_def)
  have h2: "\<not> truthy (fst (CacheManager_get (cache fresh_page) ''hello'' 1000))
     \<and> encodeURIComponent (online greeting) ''hello'' = ''hello''
     \<and> fetch (online greeting) (API_URL @ ''hello'')
         = Resolves \<lparr>status = 200, statusText = ''OK'', headers = [], body = Inr greeting\<rparr>
     \<and> ok \<lparr>status = 200, statusText = ''OK'', headers = [], body = Inr greeting\<rparr>
     \<and> (5000 :: int) - 1200 \<le> CACHE_DURATION
     \<and> requests fresh_page = []"
    by (simp add: fresh_page_def CacheManager_get_def Map_get_def online_def encode_letters_def
        upstream_found_def ok_def CACHE_DURATION_def)
  from h1 h2
    fetchWord_truthy_hit_no_request [where p = "page_with ''hello'' greeting 1000"
      and k = "''hello''" and it = "\<lparr>data = greeting, timestamp = 1000\<rparr>"
      and t = 2000 and b = offline and t_set = 2500]
    fetchWord_truthy_hit_no_request [where p = fresh_page and k = "''hello''"
      and ?t0.0 = 1000 and ?b1.0 = "online greeting"
      and r = "\<lparr>status = 200, statusText = ''OK'', headers = [], body = Inr greeting\<rparr>"
      and d = greeting and ?t2.0 = 5000 and ?t1.0 = 1200 and ?b2.0 = offline and ?t3.0 = 5200]
  show ?thesis
    by simp
qed

text \<open>
  Against claim C1 as stated. The upstream answers \<open>hello\<close> with status 200 and the empty
  string as its JSON body. The first \<open>fetchWord\<close> stores it; the second one, 800 ms after
  the store, finds the entry, unexpired, and calls the network again: two calls, two
  requests.
\<close>

theorem fetchWord_hit_counterexample:
  "fetchWord (online (JStr [])) 1000 1200 ''hello'' fresh_page
     = (Inr (JStr []),
        \<lparr>cache = [(''hello'', \<lparr>data = JStr [], timestamp = 1200\<rparr>)],
         requests = [API_URL @ ''hello'']\<rparr>)
   \<and> (2000 :: int) - 1200 \<le> CACHE_DURATION
   \<and> requests (snd (fetchWord (online (JStr [])) 2000 2200 ''hello''
        \<lparr>cache = [(''hello'', \<lparr>data = JStr [], timestamp = 1200\<rparr>)],
         requests = [API_URL @ ''hello'']\<rparr>))
     = [API_URL @ ''hello'', API_URL @ ''hello'']"
  by (simp add: fresh_page_def fetchWord_def CacheManager_get_def CacheManager_set_def
      Map_get_def Map_size_def MAX_CACHE_SIZE_def CACHE_DURATION_def online_def
      encode_letters_def upstream_found_def ok_def)

text \<open>
  Claim C10. The fast path of \<open>fetchWord\<close> tests the cached value, not the presence of
  the entry: for an unexpired entry no request is made when the value is truthy, and one
  request is made, as on a miss, when it is falsy.
\<close>

theorem fetchWord_falsy_entry_is_miss:
  "Map_get (cache p) k = Some it \<and> t - timestamp it \<le> CACHE_DURATION
   \<longrightarrow> requests (snd (fetchWord b t t_set k p))
         = (if truthy (data it) then requests p
            else requests p @ [API_URL @ encodeURIComponent b k])"
proof
  assume a: "Map_get (cache p) k = Some it \<and> t - timestamp it \<le> CACHE_DURATION"
  then have g: "CacheManager_get (cache p) k t = (data it, cache p)"
    by (simp add: CacheManager_get_valid)
  show "requests (snd (fetchWord b t t_set k p))
         = (if truthy (data it) then requests p
            else requests p @ [API_URL @ encodeURIComponent b k])"
  proof (cases "truthy (data it)")
    case True
    from fetchWord_hit[OF g True] show ?thesis using True by simp
  next
    case False
    with g show ?thesis
      by (simp add: fetchWord_def Let_def split: fetch_result.splits sum.splits)
  qed
qed

theorem fetchWord_falsy_entry_is_miss_witness:
  "Map_get (cache (page_with ''hello'' (JNum 0) 1000)) ''hello''
     = Some \<lparr>data = JNum 0, timestamp = 1000\<rparr>
   \<and> (2000 :: int) - 1000 \<le> CACHE_DURATION
   \<and> \<not> truthy (JNum 0)
   \<and> requests (snd (fetchWord offline 2000 2500 ''hello'' (page_with ''hello'' (JNum 0) 1000)))
       = [API_URL @ ''hello'']"
proof -
  have h: "Map_get (cache (page_with ''hello'' (JNum 0) 1000)) ''hello''
     = Some \<lparr>data = JNum 0, timestamp = 1000\<rparr>
   \<and> (2000 :: int) - 1000 \<le> CACHE_DURATION
   \<and> encodeURIComponent offline ''hello'' = ''hello''
   \<and> requests (page_with ''hello'' (JNum 0) 1000) = []"
    by (simp add: page_with_def Map_get_def CACHE_DURATION_def offline_def encode_letters_def)
  from h
    fetchWord_falsy_entry_is_miss [where p = "page_with ''hello'' (JNum 0) 1000"
      and k = "''hello''" and it = "\<lparr>data = JNum 0, timestamp = 1000\<rparr>"
      and t = 2000 and b = offline and t_set = 2500]
  show ?thesis
    by simp
qed








section \<open>The stores the worker can reach\<close>

text \<open>
  A response with \<open>Vary: *\<close> is not written: the cache is opened and nothing is put; a
  response with another \<open>Vary\<close> is written.
\<close>

lemma put_in_vary_star:
  "put_in [] RUNTIME_CACHE hello_url
     \<lparr>status = 200, statusText = ''OK'', headers = [(''vary'', ''Accept-Encoding, *'')],
      body = Inr greeting\<rparr>
   = [(RUNTIME_CACHE, [])]"
  by code_simp

lemma put_in_vary_other:
  "put_in [] RUNTIME_CACHE hello_url
     \<lparr>status = 200, statusText = ''OK'', headers = [(''Vary'', ''Accept-Encoding'')],
      body = Inr greeting\<rparr>
   = [(RUNTIME_CACHE,
       [(hello_url,
         \<lparr>status = 200, statusText = ''OK'', headers = [(''Vary'', ''Accept-Encoding'')],
          body = Inr greeting\<rparr>)])]"
  by code_simp

text \<open>
  Every event keeps the store free of API requests outside the runtime cache: the listener
  sends a request to the origin of the API to \<open>networkFirstStrategy\<close> only, which writes
  the runtime cache, and the manifest names no URL of that origin.
\<close>

lemma list_all_Map_set:
  "list_all P m \<Longrightarrow> P (k, v) \<Longrightarrow> list_all P (Map_set m k v)"
  by (induction m) auto

lemma Map_get_in_set: "Map_get m k = Some v \<Longrightarrow> (k, v) \<in> set m"
  by (simp add: Map_get_def map_of_SomeD)

lemma api_free_Nil: "api_free []"
  by (simp add: api_free_def Map_keys_def)

lemma api_free_Cache_put:
  "api_free c \<Longrightarrow> URL_origin req \<noteq> API_ORIGIN \<Longrightarrow> api_free (Cache_put c req r)"
  by (simp add: api_free_def Cache_put_def Map_keys_def Map_delete_def list_all_iff)

lemma runtime_only_Nil: "runtime_only []"
  by (simp add: runtime_only_def wf_map_def Map_keys_def)

lemma runtime_only_opened:
  "runtime_only st \<Longrightarrow> name \<noteq> RUNTIME_CACHE \<Longrightarrow> api_free (opened st name)"
proof (cases "Map_get st name")
  case None
  then show ?thesis by (simp add: opened_def api_free_Nil)
next
  case (Some c)
  assume r: "runtime_only st" and n: "name \<noteq> RUNTIME_CACHE"
  from Some have "(name, c) \<in> set st" by (rule Map_get_in_set)
  with r n have "api_free c" by (auto simp: runtime_only_def list_all_iff)
  with Some show ?thesis by (simp add: opened_def)
qed

lemma runtime_only_caches_open: "runtime_only st \<Longrightarrow> runtime_only (caches_open st name)"
  by (auto simp: runtime_only_def caches_open_def wf_map_def Map_keys_def Map_has_def
      api_free_Nil)

lemma runtime_only_Map_set:
  "runtime_only st \<Longrightarrow> name = RUNTIME_CACHE \<or> api_free c \<Longrightarrow>
   runtime_only (Map_set st name c)"
  by (auto simp: runtime_only_def wf_map_set intro: list_all_Map_set)

lemma runtime_only_put_in:
  assumes "runtime_only st" "name = RUNTIME_CACHE \<or> URL_origin req \<noteq> API_ORIGIN"
  shows "runtime_only (put_in st name req r)"
proof -
  let ?st1 = "caches_open st name"
  have r1: "runtime_only ?st1" using assms(1) by (rule runtime_only_caches_open)
  have "name = RUNTIME_CACHE \<or> api_free (Cache_put (opened ?st1 name) req r)"
  proof (cases "name = RUNTIME_CACHE")
    case True
    then show ?thesis by simp
  next
    case False
    with assms(2) have "URL_origin req \<noteq> API_ORIGIN" by simp
    with runtime_only_opened[OF r1 False] show ?thesis
      by (simp add: api_free_Cache_put)
  qed
  with r1 show ?thesis
    by (simp add: put_in_def Let_def runtime_only_Map_set)
qed

lemma runtime_only_cacheFirst:
  "runtime_only st \<Longrightarrow> URL_origin req \<noteq> API_ORIGIN \<Longrightarrow>
   runtime_only (snd (cacheFirstStrategy sw_fetch req st))"
  by (auto simp: cacheFirstStrategy_def runtime_only_put_in
      split: option.splits fetch_result.splits)

lemma runtime_only_networkFirst:
  "runtime_only st \<Longrightarrow> runtime_only (snd (networkFirstStrategy sw_fetch req st))"
  by (auto simp: networkFirstStrategy_def runtime_only_put_in
      split: option.splits fetch_result.splits)

lemma runtime_only_fetch_listener:
  "runtime_only st \<Longrightarrow> runtime_only (snd (fetch_listener sw_fetch req st))"
  by (simp add: fetch_listener_def runtime_only_cacheFirst runtime_only_networkFirst)

lemma fetch_all_urls: "fetch_all sw_fetch urls = Inr rs \<Longrightarrow> map fst rs = urls"
  by (induction urls arbitrary: rs) (auto split: fetch_result.splits if_splits sum.splits)

lemma api_free_put_all:
  "api_free c \<Longrightarrow> list_all (\<lambda>q. URL_origin q \<noteq> API_ORIGIN) (map fst rs) \<Longrightarrow>
   api_free (foldl (\<lambda>c' (u, r). Cache_put c' u r) c rs)"
  by (induction rs arbitrary: c) (auto simp: api_free_Cache_put)

lemma STATIC_ASSETS_origin: "list_all (\<lambda>q. URL_origin q \<noteq> API_ORIGIN) STATIC_ASSETS"
  by code_simp

lemma CACHE_NAME_neq: "CACHE_NAME \<noteq> RUNTIME_CACHE"
  by (simp add: CACHE_NAME_def RUNTIME_CACHE_def)

lemma runtime_only_install:
  assumes "runtime_only st"
  shows "runtime_only (fst (snd (install_event sw_fetch st)))"
proof -
  let ?st1 = "caches_open st CACHE_NAME"
  have r1: "runtime_only ?st1" using assms by (rule runtime_only_caches_open)
  show ?thesis
  proof (cases "Cache_addAll sw_fetch (opened ?st1 CACHE_NAME) STATIC_ASSETS")
    case (Inl error)
    with r1 show ?thesis
      by (simp add: install_event_def install_chain_def Let_def)
  next
    case (Inr c)
    then obtain rs where rs: "fetch_all sw_fetch STATIC_ASSETS = Inr rs"
      and c: "c = foldl (\<lambda>c' (u, r). Cache_put c' u r) (opened ?st1 CACHE_NAME) rs"
      by (auto simp: Cache_addAll_def split: sum.splits)
    from fetch_all_urls[OF rs] STATIC_ASSETS_origin
    have "list_all (\<lambda>q. URL_origin q \<noteq> API_ORIGIN) (map fst rs)" by simp
    with runtime_only_opened[OF r1 CACHE_NAME_neq] have "api_free c"
      unfolding c by (rule api_free_put_all)
    with r1 have "runtime_only (Map_set ?st1 CACHE_NAME c)"
      by (simp add: runtime_only_Map_set)
    with Inr show ?thesis
      by (simp add: install_event_def install_chain_def Let_def)
  qed
qed

lemma runtime_only_activate: "runtime_only st \<Longrightarrow> runtime_only (activate_event st)"
  by (auto simp: runtime_only_def activate_event_def wf_map_def Map_keys_def list_all_iff
      distinct_map_filter)

lemma runtime_only_message: "runtime_only st \<Longrightarrow> runtime_only (message_event m st)"
  by (cases m) (simp_all add: runtime_only_Nil)

lemma runtime_only_handle_event: "runtime_only st \<Longrightarrow> runtime_only (handle_event st ev)"
  by (cases ev)
    (simp_all add: runtime_only_install runtime_only_activate runtime_only_fetch_listener
      runtime_only_message)

lemma runtime_only_foldl:
  "runtime_only st \<Longrightarrow> runtime_only (foldl handle_event st evs)"
  by (induction evs arbitrary: st) (simp_all add: runtime_only_handle_event)

lemma runtime_only_run_events: "runtime_only (run_events evs)"
  by (simp add: run_events_def runtime_only_foldl runtime_only_Nil)

lemma api_free_no_match:
  "api_free c \<Longrightarrow> URL_origin req = API_ORIGIN \<Longrightarrow> Cache_match c req = None"
  by (auto simp: api_free_def Cache_match_def Map_get_def Map_keys_def list_all_iff
      map_of_eq_None_iff)

section \<open>The caching strategies\<close>

text \<open>
  When the named cache is the only one that can hold the request, \<open>caches.match\<close> is the
  lookup in that cache.
\<close>

lemma caches_match_only:
  "wf_map st \<Longrightarrow>
   \<forall>e \<in> set st. fst e \<noteq> name \<longrightarrow> Cache_match (snd e) req = None \<Longrightarrow>
   caches_match st req = Cache_match (opened st name) req"
proof (induction st)
  case Nil
  then show ?case by (simp add: opened_def Map_get_def Cache_match_def)
next
  case (Cons e st)
  obtain n c where e: "e = (n, c)" by (cases e)
  from Cons.prems(1) have wf: "wf_map st" and nin: "n \<notin> fst ` set st"
    by (auto simp: e wf_map_def Map_keys_def)
  show ?case
  proof (cases "n = name")
    case True
    with nin have "\<forall>x \<in> set st. fst x \<noteq> name"
      by auto
    with Cons.prems(2) have "\<forall>x \<in> set st. Cache_match (snd x) req = None"
      by simp
    then have "caches_match st req = None"
      by (induction st) auto
    with True show ?thesis
      by (simp add: e opened_def Map_get_def split: option.splits)
  next
    case False
    with Cons.prems(2) have "Cache_match c req = None" by (simp add: e)
    moreover from Cons.prems(2) have
      "\<forall>e \<in> set st. fst e \<noteq> name \<longrightarrow> Cache_match (snd e) req = None" by simp
    ultimately show ?thesis
      using False Cons.IH[OF wf] by (simp add: e opened_def Map_get_def)
  qed
qed

lemma runtime_only_caches_match:
  assumes "runtime_only st" "URL_origin req = API_ORIGIN"
  shows "caches_match st req = Cache_match (opened st RUNTIME_CACHE) req"
proof (rule caches_match_only)
  from assms(1) show "wf_map st" by (simp add: runtime_only_def)
  from assms show "\<forall>e \<in> set st. fst e \<noteq> RUNTIME_CACHE \<longrightarrow> Cache_match (snd e) req = None"
    by (auto simp: runtime_only_def list_all_iff api_free_no_match)
qed

text \<open>
  Claim C7. For a request to the origin of the API, on any store the worker can have
  reached, when \<open>fetch\<close> throws \<open>networkFirstStrategy\<close> fulfils, never rejects, and
  leaves the store as it was: with the response that the runtime cache holds for the same
  request when it holds one, and otherwise with the offline response, whose status is 503.
\<close>

theorem networkFirst_offline_fallback:
  "URL_origin req = API_ORIGIN \<and> sw_fetch req = Rejects e \<longrightarrow>
     networkFirstStrategy sw_fetch req (run_events evs) =
       (Fulfilled (Some (case Cache_match (opened (run_events evs) RUNTIME_CACHE) req of
                           Some r \<Rightarrow> r | None \<Rightarrow> offline_response)),
        run_events evs)
     \<and> status offline_response = 503"
proof
  assume a: "URL_origin req = API_ORIGIN \<and> sw_fetch req = Rejects e"
  then have "caches_match (run_events evs) req
      = Cache_match (opened (run_events evs) RUNTIME_CACHE) req"
    by (simp add: runtime_only_caches_match runtime_only_run_events)
  with a have "networkFirstStrategy sw_fetch req (run_events evs) =
       (Fulfilled (Some (case Cache_match (opened (run_events evs) RUNTIME_CACHE) req of
                           Some r \<Rightarrow> r | None \<Rightarrow> offline_response)),
        run_events evs)"
    by (simp add: networkFirstStrategy_def split: option.splits)
  moreover have "status offline_response = 503"
    by (simp add: offline_response_def)
  ultimately show "networkFirstStrategy sw_fetch req (run_events evs) =
       (Fulfilled (Some (case Cache_match (opened (run_events evs) RUNTIME_CACHE) req of
                           Some r \<Rightarrow> r | None \<Rightarrow> offline_response)),
        run_events evs)
     \<and> status offline_response = 503"
    by simp
qed

theorem networkFirst_offline_fallback_witness:
  "URL_origin hello_url = API_ORIGIN
   \<and> network_down hello_url = Rejects (TypeError ''Failed to fetch'')
   \<and> Cache_match (opened (run_events first_visit) RUNTIME_CACHE) hello_url
       = Some \<lparr>status = 200, statusText = ''OK'', headers = [], body = Inr greeting\<rparr>
   \<and> networkFirstStrategy network_down hello_url (run_events first_visit)
       = (Fulfilled (Some \<lparr>status = 200, statusText = ''OK'', headers = [],
                           body = Inr greeting\<rparr>),
          run_events first_visit)
   \<and> Cache_match (opened (run_events []) RUNTIME_CACHE) hello_url = None
   \<and> networkFirstStrategy network_down hello_url (run_events [])
       = (Fulfilled (Some offline_response), run_events [])"
proof -
  have h: "URL_origin hello_url = API_ORIGIN \<and> network_down hello_url = Rejects (TypeError ''Failed to fetch'')"
    by code_simp
  have m: "Cache_match (opened (run_events first_visit) RUNTIME_CACHE) hello_url
       = Some \<lparr>status = 200, statusText = ''OK'', headers = [], body = Inr greeting\<rparr>"
    by code_simp
  have n: "Cache_match (opened (run_events []) RUNTIME_CACHE) hello_url = None"
    by code_simp
  from h m n
    networkFirst_offline_fallback [where req = hello_url and sw_fetch = network_down
      and e = "TypeError ''Failed to fetch''" and evs = first_visit]
    networkFirst_offline_fallback [where req = hello_url and sw_fetch = network_down
      and e = "TypeError ''Failed to fetch''" and evs = "[]"]
  show ?thesis by simp
qed

text \<open>
  Claim C8. Nothing is stored and the network is down: \<open>cacheFirstStrategy\<close> does not
  pass the failure on; it fulfils, and with \<open>undefined\<close>, which is no \<open>Response\<close>.
\<close>

theorem cacheFirst_resolves_undefined:
  "caches_match [] ''./style.css'' = None
   \<and> network_down ''./style.css'' = Rejects (TypeError ''Failed to fetch'')
   \<and> caches_match [] ''./index.html'' = None
   \<and> cacheFirstStrategy network_down ''./style.css'' [] = (Fulfilled None, [])"
  by (simp add: cacheFirstStrategy_def network_down_def)

text \<open>
  In general, when the request is in no cache and \<open>fetch\<close> throws, the strategy fulfils
  with what \<open>caches.match('./index.html')\<close> finds, and leaves the store as it was.
\<close>

lemma cacheFirst_offline_fallback:
  "caches_match st req = None \<Longrightarrow> sw_fetch req = Rejects e \<Longrightarrow>
   cacheFirstStrategy sw_fetch req st = (Fulfilled (caches_match st ''./index.html''), st)"
  by (simp add: cacheFirstStrategy_def)

section \<open>Installation\<close>

text \<open>
  Claim C9. The manifest's stylesheet answers 404 at install time, so \<open>addAll\<close> rejects
  and stores nothing. The \<open>catch\<close> at the end of the chain turns the rejection into a
  fulfilment: the worker counts as installed, with a static cache that holds no asset, and
  \<open>skipWaiting\<close> was not called.
\<close>

theorem install_failure_swallowed:
  "install_event missing_stylesheet [] = (Installed, [(CACHE_NAME, [])], False)"
  by (simp add: install_event_def install_chain_def caches_open_def Map_has_def Map_keys_def
      opened_def Map_get_def Cache_addAll_def STATIC_ASSETS_def missing_stylesheet_def ok_def
      stored_def vary_star_def header_values_def)

text \<open>Whatever the network does, the promise handed to \<open>waitUntil\<close> fulfils.\<close>

lemma install_event_always_installed: "fst (install_event sw_fetch st) = Installed"
  by (simp add: install_event_def install_chain_def Let_def split: sum.splits)

end
